theory Spec2Isabelle
  imports Complex_Main "HOL-Library.AList" "HOL-Library.Multiset"
begin

section \<open>Bedrock integration: data model\<close>

text \<open>
  The module \<^verbatim>\<open>bedrock_integration.py\<close> turns a list of security findings into a
  prompt, sends it to a language model through a client handle, and extracts a narrative
  from the reply, with a fixed fallback text when anything fails.

  A Python \<^verbatim>\<open>str\<close> is modelled as a \<^typ>\<open>string\<close>, one \<^typ>\<open>char\<close> per code point, which
  covers the code points U+0000 to U+00FF. A Python exception is a value of \<open>py_error\<close>;
  a function that can raise returns \<open>py_error + 'a\<close>, with \<open>Inl\<close> for the exception.
  All exceptions modelled are instances of \<^verbatim>\<open>Exception\<close>, the class that the
  \<^verbatim>\<open>except Exception\<close> clauses of the module intercept.
\<close>

datatype py_error =
    AttributeError
  | TypeError
  | KeyError
  | ServiceError string

text \<open>
  A value decoded from JSON by \<^verbatim>\<open>json.loads\<close>. A number is a \<open>PInt\<close>: the module
  never computes with the numbers of a response, and a float behaves there as an integer
  does (it has no \<^verbatim>\<open>get\<close>, is not iterable and cannot be appended to a \<^verbatim>\<open>str\<close>).
  A dictionary is an association list read with \<^const>\<open>map_of\<close>.
\<close>

datatype pyval =
    PNone
  | PBool bool
  | PInt int
  | PStr string
  | PList "pyval list"
  | PDict "(string \<times> pyval) list"

text \<open>
  The value of a field of a finding: a \<^verbatim>\<open>str\<close> or \<^verbatim>\<open>None\<close>. A finding is a
  dictionary from field names to such values; a key can be absent, or present with the
  value \<^verbatim>\<open>None\<close>, and the module tells the two apart where it passes a default.
  The fields of a finding are text in the data model of the module; values of other
  Python types are not modelled.
\<close>

datatype fval = FNone | FStr string

type_synonym finding = "(string \<times> fval) list"

text \<open>\<^verbatim>\<open>finding.get(key)\<close> and \<^verbatim>\<open>finding.get(key, default)\<close>.\<close>

definition dict_get :: "finding \<Rightarrow> string \<Rightarrow> fval" where
  "dict_get finding key = (case map_of finding key of None \<Rightarrow> FNone | Some v \<Rightarrow> v)"

definition dict_get_default :: "finding \<Rightarrow> string \<Rightarrow> fval \<Rightarrow> fval" where
  "dict_get_default finding key dflt = (case map_of finding key of None \<Rightarrow> dflt | Some v \<Rightarrow> v)"

text \<open>\<^verbatim>\<open>str(v)\<close>, as an f-string applies it to a replacement field.\<close>

fun py_str :: "fval \<Rightarrow> string" where
  "py_str FNone = ''None''"
| "py_str (FStr s) = s"

text \<open>\<^verbatim>\<open>str(n)\<close> for a non-negative integer: its decimal digits.\<close>

fun str_of_nat :: "nat \<Rightarrow> string" where
  "str_of_nat n =
     (if n < 10 then [char_of (48 + n)]
      else str_of_nat (n div 10) @ [char_of (48 + n mod 10)])"

text \<open>\<^verbatim>\<open>sep.join(parts)\<close>.\<close>

fun join :: "string \<Rightarrow> string list \<Rightarrow> string" where
  "join sep [] = []"
| "join sep [x] = x"
| "join sep (x # y # ys) = x @ sep @ join sep (y # ys)"

text \<open>
  \<^verbatim>\<open>str.isspace\<close> on one character: among the code points up to U+00FF the
  whitespace ones are U+0009 to U+000D, U+001C to U+0020, U+0085 and U+00A0.
\<close>

definition py_isspace :: "char \<Rightarrow> bool" where
  "py_isspace c =
     (let n = (of_char c :: nat)
      in (9 \<le> n \<and> n \<le> 13) \<or> (28 \<le> n \<and> n \<le> 32) \<or> n = 133 \<or> n = 160)"

text \<open>\<^verbatim>\<open>s.strip()\<close>: drop the leading whitespace, then the trailing whitespace.\<close>

definition py_strip :: "string \<Rightarrow> string" where
  "py_strip s = rev (dropWhile py_isspace (rev (dropWhile py_isspace s)))"

section \<open>The fallback generator\<close>

definition generate_fallback_narrative :: string where
  "generate_fallback_narrative =
     ''# AWS Access Review Report\<newline>\<newline>'' @
     ''## Executive Summary\<newline>\<newline>'' @
     ''Due to technical limitations, a detailed AI analysis could not be generated. '' @
     ''Please refer to the CSV report for a complete list of findings.\<newline>\<newline>'' @
     ''## Key Recommendations\<newline>\<newline>'' @
     ''1. **High Priority:** Review all findings marked as Critical or High priority first\<newline>'' @
     ''2. **Medium Priority:** Address Medium priority findings as part of regular maintenance\<newline>'' @
     ''3. **Low Priority:** Consider Low priority findings for long-term security improvements\<newline>'' @
     ''4. **Ongoing:** Maintain regular security reviews and monitoring\<newline>\<newline>'' @
     ''## Next Steps\<newline>\<newline>'' @
     ''For detailed findings and specific recommendations, please consult the attached CSV'' @
     '' report. Consider scheduling a follow-up security review once the highest priority items'' @
     '' have been addressed.\<newline>\<newline>'' @
     ''---\<newline>'' @
     ''This report was generated by the AWS Access Review Tool. For questions or assistance, '' @
     ''please contact your security team.''"

section \<open>The response extractor\<close>

text \<open>
  \<^verbatim>\<open>obj.get(key)\<close> and \<^verbatim>\<open>obj.get(key, default)\<close> on a decoded value: only a
  dictionary has the method, any other value raises \<^verbatim>\<open>AttributeError\<close>.
\<close>

fun py_get :: "pyval \<Rightarrow> string \<Rightarrow> py_error + pyval" where
  "py_get (PDict kvs) key = Inr (case map_of kvs key of None \<Rightarrow> PNone | Some v \<Rightarrow> v)"
| "py_get _ key = Inl AttributeError"

fun py_get_default :: "pyval \<Rightarrow> string \<Rightarrow> pyval \<Rightarrow> py_error + pyval" where
  "py_get_default (PDict kvs) key dflt = Inr (case map_of kvs key of None \<Rightarrow> dflt | Some v \<Rightarrow> v)"
| "py_get_default _ key dflt = Inl AttributeError"

text \<open>
  The elements a \<^verbatim>\<open>for\<close> loop visits: those of a list, the keys of a dictionary, the
  characters of a string; any other value raises \<^verbatim>\<open>TypeError\<close>.
\<close>

fun py_iter :: "pyval \<Rightarrow> py_error + pyval list" where
  "py_iter (PList xs) = Inr xs"
| "py_iter (PDict kvs) = Inr (map (\<lambda>kv. PStr (fst kv)) kvs)"
| "py_iter (PStr s) = Inr (map (\<lambda>c. PStr [c]) s)"
| "py_iter _ = Inl TypeError"

text \<open>
  The loop of \<^verbatim>\<open>extract_narrative_claude\<close> over the content parts, with the
  narrative built so far. \<^verbatim>\<open>narrative += v\<close> raises \<^verbatim>\<open>TypeError\<close> unless \<open>v\<close> is
  a \<^verbatim>\<open>str\<close>.
\<close>

fun concat_text_parts :: "string \<Rightarrow> pyval list \<Rightarrow> py_error + string" where
  "concat_text_parts narrative [] = Inr narrative"
| "concat_text_parts narrative (part # rest) =
     (case py_get part ''type'' of
        Inl e \<Rightarrow> Inl e
      | Inr ty \<Rightarrow>
          if ty = PStr ''text'' then
            (case py_get_default part ''text'' (PStr '''') of
               Inl e \<Rightarrow> Inl e
             | Inr (PStr t) \<Rightarrow> concat_text_parts (narrative @ t) rest
             | Inr _ \<Rightarrow> Inl TypeError)
          else concat_text_parts narrative rest)"

text \<open>The body of the \<^verbatim>\<open>try\<close> block of \<^verbatim>\<open>extract_narrative_claude\<close>.\<close>

definition extract_body :: "pyval \<Rightarrow> py_error + string" where
  "extract_body response =
     (case py_get_default response ''content'' (PList []) of
        Inl e \<Rightarrow> Inl e
      | Inr content_parts \<Rightarrow>
          (case py_iter content_parts of
             Inl e \<Rightarrow> Inl e
           | Inr parts \<Rightarrow>
               (case concat_text_parts '''' parts of
                  Inl e \<Rightarrow> Inl e
                | Inr narrative \<Rightarrow> Inr (py_strip narrative))))"

text \<open>The \<^verbatim>\<open>except Exception\<close> clause returns the fallback narrative.\<close>

definition extract_narrative_claude :: "pyval \<Rightarrow> py_error + string" where
  "extract_narrative_claude response =
     (case extract_body response of
        Inl e \<Rightarrow> Inr generate_fallback_narrative
      | Inr narrative \<Rightarrow> Inr narrative)"

section \<open>The severity and category summarizer\<close>

text \<open>
  Step 1 of \<^verbatim>\<open>prepare_prompt\<close>. The dictionary \<^verbatim>\<open>severity_counts\<close> starts with
  its five keys at zero; the loop adds one to the entry of a finding's severity when that
  severity is one of the keys.
\<close>

definition initial_severity_counts :: "(string \<times> nat) list" where
  "initial_severity_counts =
     [(''Critical'', 0), (''High'', 0), (''Medium'', 0), (''Low'', 0), (''Informational'', 0)]"

definition count_finding :: "(string \<times> nat) list \<Rightarrow> finding \<Rightarrow> (string \<times> nat) list" where
  "count_finding counts finding =
     (case dict_get finding ''severity'' of
        FNone \<Rightarrow> counts
      | FStr s \<Rightarrow>
          if s \<in> set (map fst counts) then AList.map_entry s (\<lambda>n. n + 1) counts
          else counts)"

definition severity_counts :: "finding list \<Rightarrow> (string \<times> nat) list" where
  "severity_counts findings = foldl count_finding initial_severity_counts findings"

text \<open>
  Step 2. The dictionary \<^verbatim>\<open>findings_by_category\<close> keeps its keys in insertion order;
  a key is the category of a finding, \<^verbatim>\<open>"Other"\<close> when the finding has no such key.
\<close>

definition category_of :: "finding \<Rightarrow> fval" where
  "category_of finding = dict_get_default finding ''category'' (FStr ''Other'')"

definition group_finding ::
  "(fval \<times> finding list) list \<Rightarrow> finding \<Rightarrow> (fval \<times> finding list) list" where
  "group_finding groups finding =
     (let category = category_of finding;
          groups' = (if category \<notin> set (map fst groups) then groups @ [(category, [])]
                     else groups)
      in AList.map_entry category (\<lambda>members. members @ [finding]) groups')"

definition findings_by_category :: "finding list \<Rightarrow> (fval \<times> finding list) list" where
  "findings_by_category findings = foldl group_finding [] findings"

section \<open>The prompt builder\<close>

definition severity_order :: "(string \<times> nat) list" where
  "severity_order =
     [(''Critical'', 0), (''High'', 1), (''Medium'', 2), (''Low'', 3), (''Informational'', 4)]"

text \<open>
  The sort key
  \<^verbatim>\<open>lambda x: severity_order.get(x.get("severity", "Low"), 999)\<close>.
\<close>

definition severity_rank :: "finding \<Rightarrow> nat" where
  "severity_rank x =
     (case dict_get_default x ''severity'' (FStr ''Low'') of
        FNone \<Rightarrow> 999
      | FStr s \<Rightarrow> (case map_of severity_order s of None \<Rightarrow> 999 | Some r \<Rightarrow> r))"

text \<open>
  \<^verbatim>\<open>sorted(category_findings, key=...)\<close>: Python's \<^verbatim>\<open>sorted\<close> is a stable sort,
  and so is the insertion sort \<^const>\<open>sort_key\<close>; a stable sort by a key has one result.
\<close>

definition sorted_findings :: "finding list \<Rightarrow> finding list" where
  "sorted_findings category_findings = sort_key severity_rank category_findings"

definition finding_line :: "finding \<Rightarrow> string" where
  "finding_line finding =
     ''  - '' @ py_str (dict_get finding ''severity'') @ '': '' @
     py_str (dict_get finding ''description'') @ '' ('' @
     py_str (dict_get finding ''resource_type'') @ '': '' @
     py_str (dict_get finding ''resource_id'') @ '')''"

text \<open>
  Step 3: one round of the loop over the items of \<^verbatim>\<open>findings_by_category\<close>, which
  appends to the list \<^verbatim>\<open>findings_summary\<close> the header of a category, a line for each
  of its first five sorted findings and, past five findings, a line counting the others.
\<close>

definition summarize_category :: "string list \<Rightarrow> fval \<times> finding list \<Rightarrow> string list" where
  "summarize_category summary item =
     (let category = fst item;
          category_findings = snd item;
          summary1 = summary @ [''\<newline>Category: '' @ py_str category];
          summary2 = foldl (\<lambda>acc finding. acc @ [finding_line finding]) summary1
                       (take 5 (sorted_findings category_findings))
      in if length category_findings > 5
         then summary2 @ [''  - ... and '' @ str_of_nat (length category_findings - 5) @
                          '' more '' @ py_str category @ '' findings'']
         else summary2)"

definition findings_summary :: "finding list \<Rightarrow> string list" where
  "findings_summary findings = foldl summarize_category [] (findings_by_category findings)"

text \<open>\<^verbatim>\<open>d[key]\<close> raises \<^verbatim>\<open>KeyError\<close> when the key is absent.\<close>

definition dict_item :: "(string \<times> nat) list \<Rightarrow> string \<Rightarrow> py_error + nat" where
  "dict_item d key = (case map_of d key of None \<Rightarrow> Inl KeyError | Some v \<Rightarrow> Inr v)"

text \<open>Sequencing of two steps, the second of which runs when the first did not raise.\<close>

definition py_bind :: "py_error + 'a \<Rightarrow> ('a \<Rightarrow> py_error + 'b) \<Rightarrow> py_error + 'b" where
  "py_bind m f = (case m of Inl e \<Rightarrow> Inl e | Inr v \<Rightarrow> f v)"

text \<open>Step 4: the prompt.\<close>

definition prepare_prompt :: "finding list \<Rightarrow> py_error + string" where
  "prepare_prompt findings =
     (let counts = severity_counts findings;
          summary = findings_summary findings
      in py_bind (dict_item counts ''Critical'') (\<lambda>critical.
         py_bind (dict_item counts ''High'') (\<lambda>high.
         py_bind (dict_item counts ''Medium'') (\<lambda>medium.
         py_bind (dict_item counts ''Low'') (\<lambda>low.
         py_bind (dict_item counts ''Informational'') (\<lambda>informational.
           Inr (''<findings>\<newline>'' @
                ''# AWS Security Findings Summary\<newline>'' @
                ''\<newline>'' @
                ''Total findings: '' @ str_of_nat (length findings) @ ''\<newline>'' @
                ''- Critical: '' @ str_of_nat critical @ ''\<newline>'' @
                ''- High: '' @ str_of_nat high @ ''\<newline>'' @
                ''- Medium: '' @ str_of_nat medium @ ''\<newline>'' @
                ''- Low: '' @ str_of_nat low @ ''\<newline>'' @
                ''- Informational: '' @ str_of_nat informational @ ''\<newline>'' @
                ''\<newline>'' @
                ''## Findings by Category:\<newline>'' @
                join ''\<newline>'' summary @ ''\<newline>'' @
                ''</findings>\<newline>'')))))))"

section \<open>The model invoker\<close>

text \<open>
  The request that \<^verbatim>\<open>invoke_claude_model\<close> passes to \<^verbatim>\<open>bedrock.invoke_model\<close>.
  The body is kept as the dictionary \<^verbatim>\<open>request_body\<close>, before \<^verbatim>\<open>json.dumps\<close>
  serializes it.
\<close>

record message =
  role :: string
  content :: string

record request_body =
  anthropic_version :: string
  messages :: "message list"
  max_tokens :: nat
  temperature :: rat
  top_p :: rat

record invoke_request =
  modelId :: string
  contentType :: string
  accept :: string
  body :: request_body

text \<open>
  The client handle, as the module uses it: a request is answered by an exception or
  by a decoded response body. The answer stands for the call of \<^verbatim>\<open>invoke_model\<close>, the
  read of the body and \<^verbatim>\<open>json.loads\<close> together, the three steps inside the
  \<^verbatim>\<open>try\<close> block of \<^verbatim>\<open>invoke_claude_model\<close>.
\<close>

type_synonym bedrock_client = "invoke_request \<Rightarrow> py_error + pyval"

definition model_id :: string where
  "model_id = ''anthropic.claude-3-haiku-20240307-v1:0''"

definition make_request_body :: "string \<Rightarrow> request_body" where
  "make_request_body prompt =
     \<lparr> anthropic_version = ''bedrock-2023-05-31'',
       messages =
         [\<lparr> role = ''user'',
            content =
              ''You are a cybersecurity expert analyzing AWS security findings. '' @
              ''Generate a concise, professional security report based on the following findings:\<newline>\<newline>'' @
              prompt @ ''\<newline>\<newline>'' @
              ''Your report should include:\<newline>'' @
              ''1. An executive summary of the security posture\<newline>'' @
              ''2. Analysis of the most critical findings\<newline>'' @
              ''3. Clear, actionable recommendations\<newline>'' @
              ''4. Compliance implications\<newline>\<newline>'' @
              ''Format the report with clear headings and concise language suitable for both '' @
              ''technical and non-technical stakeholders.'' \<rparr>],
       max_tokens = 4096,
       temperature = 7 / 10,
       top_p = 9 / 10 \<rparr>"

text \<open>The \<^verbatim>\<open>except\<close> clause of \<^verbatim>\<open>invoke_claude_model\<close> raises the exception again.\<close>

definition invoke_claude_model :: "bedrock_client \<Rightarrow> string \<Rightarrow> py_error + pyval" where
  "invoke_claude_model bedrock prompt =
     (case bedrock \<lparr> modelId = model_id,
                      contentType = ''application/json'',
                      accept = ''application/json'',
                      body = make_request_body prompt \<rparr> of
        Inl e \<Rightarrow> Inl e
      | Inr response_body \<Rightarrow> Inr response_body)"

section \<open>The entry point\<close>

text \<open>
  The \<^verbatim>\<open>try\<close> block of \<^verbatim>\<open>get_ai_analysis\<close> runs the three steps in sequence; its
  \<^verbatim>\<open>except Exception\<close> clause returns the fallback narrative.
\<close>

definition get_ai_analysis :: "bedrock_client \<Rightarrow> finding list \<Rightarrow> py_error + string" where
  "get_ai_analysis bedrock_client findings =
     (case py_bind (prepare_prompt findings) (\<lambda>prompt.
           py_bind (invoke_claude_model bedrock_client prompt) (\<lambda>response.
           py_bind (extract_narrative_claude response) (\<lambda>narrative.
             Inr narrative))) of
        Inl e \<Rightarrow> Inr generate_fallback_narrative
      | Inr narrative \<Rightarrow> Inr narrative)"

section \<open>Vocabulary of the specification\<close>

text \<open>
  The specification describes a response as a \<^verbatim>\<open>content\<close> list of parts, each with a
  \<^verbatim>\<open>type\<close> field and, when the type is \<^verbatim>\<open>"text"\<close>, a \<^verbatim>\<open>text\<close> field. The
  three definitions below follow these words, for parts that are dictionaries: whether a
  part is text-typed, the text it carries, and that a text-typed part carries a string
  (or no \<^verbatim>\<open>text\<close> key at all, which the extractor reads as the empty string).
\<close>

definition is_text_part :: "(string \<times> pyval) list \<Rightarrow> bool" where
  "is_text_part part \<longleftrightarrow> map_of part ''type'' = Some (PStr ''text'')"

definition part_text :: "(string \<times> pyval) list \<Rightarrow> string" where
  "part_text part = (case map_of part ''text'' of Some (PStr t) \<Rightarrow> t | _ \<Rightarrow> '''')"

definition well_formed_part :: "(string \<times> pyval) list \<Rightarrow> bool" where
  "well_formed_part part \<longleftrightarrow>
     (is_text_part part \<longrightarrow>
        (case map_of part ''text'' of None \<Rightarrow> True | Some (PStr t) \<Rightarrow> True | Some _ \<Rightarrow> False))"

text \<open>
  The severity order of the specification, Critical < High < Medium < Low <
  Informational < unrecognized, as a rank. A severity is unrecognized when it is none of
  the five labels, as for the severity counts: another string, \<^verbatim>\<open>None\<close>, or no
  \<^verbatim>\<open>severity\<close> key at all.
\<close>

definition spec_severity_rank :: "finding \<Rightarrow> nat" where
  "spec_severity_rank finding =
     (case dict_get finding ''severity'' of
        FNone \<Rightarrow> 5
      | FStr s \<Rightarrow>
          if s = ''Critical'' then 0 else if s = ''High'' then 1
          else if s = ''Medium'' then 2 else if s = ''Low'' then 3
          else if s = ''Informational'' then 4 else 5)"

text \<open>
  The order of first occurrence of the elements of a list, which the specification
  requires of the categories of the prompt.
\<close>

fun first_occurrences :: "'a list \<Rightarrow> 'a list" where
  "first_occurrences [] = []"
| "first_occurrences (x # xs) = x # filter (\<lambda>y. y \<noteq> x) (first_occurrences xs)"

section \<open>Trimming and the extractor\<close>

text \<open>
  Trimming is idempotent, it leaves the fallback narrative as it is, and on a list of
  well-formed dictionary parts the loop of the extractor computes the concatenation of
  the texts of the text-typed parts.
\<close>

lemma py_strip_idem: "py_strip (py_strip s) = py_strip s"
proof -
  define t where "t = dropWhile py_isspace s"
  define u where "u = dropWhile py_isspace (rev t)"
  have u_self: "dropWhile py_isspace u = u"
    by (simp add: u_def)
  have "dropWhile py_isspace (rev u) = rev u"
  proof (cases "u = []")
    case True then show ?thesis by simp
  next
    case False
    then have "t \<noteq> []" by (auto simp: u_def)
    then obtain x t' where t: "t = x # t'" by (cases t) auto
    have nx: "\<not> py_isspace x"
      using hd_dropWhile[of py_isspace s] t unfolding t_def by auto
    have "u = dropWhile py_isspace (rev t') @ [x]"
      unfolding u_def t using nx by (simp add: dropWhile_append3)
    then show ?thesis using nx by simp
  qed
  then show ?thesis
    unfolding py_strip_def t_def[symmetric] u_def[symmetric] by (simp add: u_self)
qed

lemma py_strip_id:
  assumes "s \<noteq> []" "\<not> py_isspace (hd s)" "\<not> py_isspace (last s)"
  shows "py_strip s = s"
proof -
  have a: "dropWhile py_isspace s = s"
    using assms by (simp add: dropWhile_eq_self_iff)
  have b: "dropWhile py_isspace (rev s) = rev s"
    using assms by (simp add: dropWhile_eq_self_iff hd_rev)
  show ?thesis by (simp add: py_strip_def a b)
qed

lemma fallback_nonempty: "generate_fallback_narrative \<noteq> []"
  unfolding generate_fallback_narrative_def by (simp only: append_is_Nil_conv) simp

lemma fallback_hd: "hd generate_fallback_narrative = CHR ''#''"
  unfolding generate_fallback_narrative_def by (simp only: hd_append) simp

lemma fallback_last: "last generate_fallback_narrative = CHR ''.''"
  unfolding generate_fallback_narrative_def
  by (simp only: last_append append_is_Nil_conv) simp

lemma py_strip_fallback: "py_strip generate_fallback_narrative = generate_fallback_narrative"
  by (rule py_strip_id) (simp_all add: fallback_nonempty fallback_hd fallback_last py_isspace_def)

lemma py_strip_Nil: "py_strip [] = []"
  by (simp add: py_strip_def)

lemma extract_cases:
  "extract_narrative_claude r = Inr (case extract_body r of Inl e \<Rightarrow> generate_fallback_narrative | Inr s \<Rightarrow> s)"
  by (simp add: extract_narrative_claude_def split: sum.splits)

lemma extract_body_stripped: "extract_body r = Inr s \<Longrightarrow> \<exists>t. s = py_strip t"
  by (auto simp: extract_body_def split: sum.splits)

lemma extract_stripped: "\<exists>s. extract_narrative_claude r = Inr s \<and> py_strip s = s"
proof (cases "extract_body r")
  case (Inl e)
  then show ?thesis by (simp add: extract_narrative_claude_def py_strip_fallback)
next
  case (Inr s)
  then obtain t where "s = py_strip t" using extract_body_stripped by blast
  with Inr show ?thesis by (simp add: extract_narrative_claude_def py_strip_idem)
qed

lemma concat_text_parts_dicts:
  "\<forall>p \<in> set ps. well_formed_part p \<Longrightarrow>
   concat_text_parts acc (map PDict ps) = Inr (acc @ concat (map part_text (filter is_text_part ps)))"
proof (induction ps arbitrary: acc)
  case Nil
  then show ?case by simp
next
  case (Cons p ps)
  then have wf: "well_formed_part p" and rest: "\<forall>q \<in> set ps. well_formed_part q" by simp_all
  show ?case
  proof (cases "is_text_part p")
    case True
    then have ty: "map_of p ''type'' = Some (PStr ''text'')" by (simp add: is_text_part_def)
    from wf True consider "map_of p ''text'' = None" | t where "map_of p ''text'' = Some (PStr t)"
      by (auto simp: well_formed_part_def split: option.splits pyval.splits)
    then show ?thesis
    proof cases
      case 1
      then show ?thesis using True ty Cons.IH[OF rest] by (simp add: part_text_def)
    next
      case 2
      then show ?thesis using True ty Cons.IH[OF rest] by (simp add: part_text_def)
    qed
  next
    case False
    then have "(case map_of p ''type'' of None \<Rightarrow> PNone | Some v \<Rightarrow> v) \<noteq> PStr ''text''"
      by (auto simp: is_text_part_def split: option.splits)
    then show ?thesis using False Cons.IH[OF rest] by simp
  qed
qed

lemma extract_well_formed:
  assumes "map_of d ''content'' = Some (PList (map PDict ps))" "\<forall>p \<in> set ps. well_formed_part p"
  shows "extract_narrative_claude (PDict d) = Inr (py_strip (concat (map part_text (filter is_text_part ps))))"
  using assms by (simp add: extract_narrative_claude_def extract_body_def concat_text_parts_dicts)

lemma extract_not_dict:
  "(\<forall>d. r \<noteq> PDict d) \<Longrightarrow> extract_narrative_claude r = Inr generate_fallback_narrative"
  by (cases r) (simp_all add: extract_narrative_claude_def extract_body_def)

section \<open>Severity counts\<close>

text \<open>
  The counting loop keeps the keys of the dictionary, and the entry of a label ends as
  the number of findings with that severity; so the five lookups of the prompt succeed.
\<close>

lemma map_fst_map_entry: "map fst (AList.map_entry k f xs) = map fst xs"
  by (induction xs) auto

lemma sum_snd_map_entry:
  "(k, v) \<in> set xs \<Longrightarrow>
   sum_list (map snd (AList.map_entry k Suc xs)) = Suc (sum_list (map snd xs))"
  by (induction xs) auto

lemma keys_count_finding: "map fst (count_finding c f) = map fst c"
  by (simp add: count_finding_def map_fst_map_entry split: fval.splits)

lemma keys_foldl_count: "map fst (foldl count_finding c fs) = map fst c"
  by (induction fs arbitrary: c) (simp_all add: keys_count_finding)

lemma sum_count_finding:
  "sum_list (map snd (count_finding c f)) =
   sum_list (map snd c) + (if dict_get f ''severity'' \<in> FStr ` set (map fst c) then 1 else 0)"
  by (auto simp: count_finding_def sum_snd_map_entry split: fval.splits)

lemma sum_foldl_count:
  "sum_list (map snd (foldl count_finding c fs)) =
   sum_list (map snd c) + length (filter (\<lambda>f. dict_get f ''severity'' \<in> FStr ` set (map fst c)) fs)"
proof (induction fs arbitrary: c)
  case Nil
  then show ?case by simp
next
  case (Cons f fs)
  show ?case
    by (simp add: Cons.IH sum_count_finding keys_count_finding)
qed

lemma severity_counts_keys:
  "map fst (severity_counts fs) = [''Critical'', ''High'', ''Medium'', ''Low'', ''Informational'']"
  by (simp add: severity_counts_def keys_foldl_count initial_severity_counts_def)

lemma severity_counts_sum:
  "sum_list (map snd (severity_counts fs)) =
   length (filter (\<lambda>f. dict_get f ''severity'' \<in>
      {FStr ''Critical'', FStr ''High'', FStr ''Medium'', FStr ''Low'', FStr ''Informational''}) fs)"
  by (simp add: severity_counts_def sum_foldl_count initial_severity_counts_def)

lemma count_finding_unrecognized:
  "dict_get f ''severity'' \<notin> FStr ` set (map fst c) \<Longrightarrow> count_finding c f = c"
  by (auto simp: count_finding_def split: fval.splits)

lemma severity_counts_skip:
  assumes "dict_get f ''severity'' \<notin>
      {FStr ''Critical'', FStr ''High'', FStr ''Medium'', FStr ''Low'', FStr ''Informational''}"
  shows "severity_counts (xs @ f # ys) = severity_counts (xs @ ys)"
proof -
  let ?c = "foldl count_finding initial_severity_counts xs"
  have "map fst ?c = [''Critical'', ''High'', ''Medium'', ''Low'', ''Informational'']"
    by (simp add: keys_foldl_count initial_severity_counts_def)
  then have "dict_get f ''severity'' \<notin> FStr ` set (map fst ?c)"
    using assms by simp
  then have "count_finding ?c f = ?c" by (rule count_finding_unrecognized)
  then show ?thesis by (simp add: severity_counts_def)
qed

lemma map_of_foldl_count:
  "map_of (foldl count_finding c fs) l =
   map_option (\<lambda>n. n + length (filter (\<lambda>f. dict_get f ''severity'' = FStr l) fs)) (map_of c l)"
proof (induction fs arbitrary: c)
  case Nil
  then show ?case by (simp add: option.map_ident)
next
  case (Cons f fs)
  have step: "map_of (count_finding c f) l =
      map_option (\<lambda>n. n + (if dict_get f ''severity'' = FStr l then 1 else 0)) (map_of c l)"
  proof (cases "map_of c l")
    case None
    then have "l \<notin> fst ` set c" by (simp add: map_of_eq_None_iff)
    with None show ?thesis
      by (auto simp: count_finding_def AList.map_of_map_entry split: fval.splits)
  next
    case (Some n)
    then have "l \<in> fst ` set c" using map_of_eq_None_iff[of c l] by auto
    with Some show ?thesis
      by (auto simp: count_finding_def AList.map_of_map_entry option.map_ident
          split: fval.splits option.splits)
  qed
  show ?case
    by (simp add: Cons.IH step option.map_comp comp_def add.assoc)
qed

lemma dict_item_severity_counts:
  "l \<in> set [''Critical'', ''High'', ''Medium'', ''Low'', ''Informational''] \<Longrightarrow>
   dict_item (severity_counts fs) l = Inr (length (filter (\<lambda>f. dict_get f ''severity'' = FStr l) fs))"
  unfolding dict_item_def severity_counts_def map_of_foldl_count
  by (auto simp: initial_severity_counts_def)

lemma prepare_prompt_returns: "\<exists>p. prepare_prompt fs = Inr p"
  by (simp add: prepare_prompt_def Let_def py_bind_def dict_item_severity_counts)

section \<open>Category groups\<close>

text \<open>
  The grouping loop in closed form: one group for each category, in the order of first
  occurrence, holding the findings of that category in input order.
\<close>

lemma set_first_occurrences: "set (first_occurrences xs) = set xs"
  by (induction xs) auto

lemma distinct_first_occurrences: "distinct (first_occurrences xs)"
  by (induction xs) (auto simp: set_first_occurrences)

lemma first_occurrences_snoc:
  "first_occurrences (xs @ [x]) =
     (if x \<in> set xs then first_occurrences xs else first_occurrences xs @ [x])"
  by (induction xs) (auto simp: set_first_occurrences)

lemma map_entry_absent:
  "k \<notin> set (map fst xs) \<Longrightarrow> AList.map_entry k h (xs @ ys) = xs @ AList.map_entry k h ys"
  by (induction xs) auto

lemma map_entry_tabulate:
  "distinct ks \<Longrightarrow>
   AList.map_entry k h (map (\<lambda>c. (c, F c)) ks) = map (\<lambda>c. (c, if c = k then h (F c) else F c)) ks"
  by (induction ks) auto

lemma findings_by_category_snoc:
  "findings_by_category (fs @ [f]) = group_finding (findings_by_category fs) f"
  by (simp add: findings_by_category_def)

lemma findings_by_category_eq:
  "findings_by_category fs =
     map (\<lambda>c. (c, filter (\<lambda>f. category_of f = c) fs)) (first_occurrences (map category_of fs))"
proof (induction fs rule: rev_induct)
  case Nil
  then show ?case by (simp add: findings_by_category_def)
next
  case (snoc f fs)
  let ?ks = "first_occurrences (map category_of fs)"
  let ?G = "map (\<lambda>c. (c, filter (\<lambda>f. category_of f = c) fs)) ?ks"
  have keys: "set (map fst ?G) = category_of ` set fs"
    by (simp add: comp_def set_first_occurrences)
  show ?case
  proof (cases "category_of f \<in> category_of ` set fs")
    case True
    have "group_finding ?G f = AList.map_entry (category_of f) (\<lambda>members. members @ [f]) ?G"
      using True keys by (simp add: group_finding_def Let_def)
    also have "\<dots> = map (\<lambda>c. (c, if c = category_of f
                                     then filter (\<lambda>f. category_of f = c) fs @ [f]
                                     else filter (\<lambda>f. category_of f = c) fs)) ?ks"
      by (rule map_entry_tabulate) (rule distinct_first_occurrences)
    also have "\<dots> = map (\<lambda>c. (c, filter (\<lambda>f. category_of f = c) (fs @ [f]))) ?ks"
      by (rule map_cong) auto
    finally show ?thesis
      using True by (simp add: findings_by_category_snoc snoc.IH first_occurrences_snoc)
  next
    case False
    then have empty: "filter (\<lambda>g. category_of g = category_of f) fs = []"
      by (auto simp: filter_empty_conv image_iff)
    have step: "group_finding ?G f = ?G @ [(category_of f, [f])]"
    proof -
      have "group_finding ?G f =
          AList.map_entry (category_of f) (\<lambda>members. members @ [f]) (?G @ [(category_of f, [])])"
        using False keys by (simp add: group_finding_def Let_def)
      also have "\<dots> = ?G @ [(category_of f, [f])]"
        using False keys by (subst map_entry_absent) simp_all
      finally show ?thesis .
    qed
    have same: "?G = map (\<lambda>c. (c, filter (\<lambda>f. category_of f = c) (fs @ [f]))) ?ks"
      using False by (intro map_cong) (auto simp: set_first_occurrences)
    have "findings_by_category (fs @ [f]) = ?G @ [(category_of f, [f])]"
      by (simp only: findings_by_category_snoc snoc.IH step)
    also have "\<dots> = map (\<lambda>c. (c, filter (\<lambda>f. category_of f = c) (fs @ [f]))) (?ks @ [category_of f])"
      using empty same by simp
    also have "?ks @ [category_of f] = first_occurrences (map category_of (fs @ [f]))"
      using False by (simp add: first_occurrences_snoc)
    finally show ?thesis .
  qed
qed

lemma category_keys:
  "map fst (findings_by_category fs) = first_occurrences (map category_of fs)"
  by (simp add: findings_by_category_eq comp_def)

lemma category_keys_distinct: "distinct (map fst (findings_by_category fs))"
  by (simp add: category_keys distinct_first_occurrences)

lemma group_members:
  "g \<in> set (findings_by_category fs) \<Longrightarrow> snd g = filter (\<lambda>f. category_of f = fst g) fs"
  by (auto simp: findings_by_category_eq)

lemma finding_in_group:
  "f \<in> set fs \<Longrightarrow>
   (category_of f, filter (\<lambda>f'. category_of f' = category_of f) fs) \<in> set (findings_by_category fs)"
  by (auto simp: findings_by_category_eq set_first_occurrences)

lemma finding_in_unique_group:
  assumes "f \<in> set fs"
  shows "\<exists>!g. g \<in> set (findings_by_category fs) \<and> f \<in> set (snd g)"
proof
  show "(category_of f, filter (\<lambda>f'. category_of f' = category_of f) fs) \<in> set (findings_by_category fs)
      \<and> f \<in> set (snd (category_of f, filter (\<lambda>f'. category_of f' = category_of f) fs))"
    using assms finding_in_group by simp
next
  fix g assume g: "g \<in> set (findings_by_category fs) \<and> f \<in> set (snd g)"
  then have "snd g = filter (\<lambda>f'. category_of f' = fst g) fs" using group_members by blast
  with g have "fst g = category_of f" by auto
  with \<open>snd g = _\<close> show "g = (category_of f, filter (\<lambda>f'. category_of f' = category_of f) fs)"
    by (simp add: prod_eq_iff)
qed

lemma mset_concat_filters:
  "distinct ks \<Longrightarrow>
   mset (concat (map (\<lambda>c. filter (\<lambda>f. key f = c) fs) ks)) = mset (filter (\<lambda>f. key f \<in> set ks) fs)"
proof (induction ks)
  case Nil
  then show ?case by simp
next
  case (Cons k ks)
  then have "k \<notin> set ks" by simp
  then have "mset (filter (\<lambda>f. key f = k) fs) + mset (filter (\<lambda>f. key f \<in> set ks) fs)
      = mset (filter (\<lambda>f. key f \<in> set (k # ks)) fs)"
    by (induction fs) auto
  with Cons show ?case by simp
qed

lemma groups_partition: "mset (concat (map snd (findings_by_category fs))) = mset fs"
proof -
  have "mset (concat (map snd (findings_by_category fs))) =
      mset (filter (\<lambda>f. category_of f \<in> set (first_occurrences (map category_of fs))) fs)"
    by (simp add: findings_by_category_eq comp_def mset_concat_filters distinct_first_occurrences)
  also have "\<dots> = mset fs"
    by (simp add: set_first_occurrences)
  finally show ?thesis .
qed

section \<open>The summary lines and the prompt\<close>

text \<open>
  One round of the summary loop in closed form, the summary as the concatenation of the
  rounds, the properties of the sort, and the prompt with its counts and summary lines.
\<close>

lemma foldl_finding_lines:
  "foldl (\<lambda>acc finding. acc @ [finding_line finding]) summary xs = summary @ map finding_line xs"
  by (induction xs arbitrary: summary) simp_all

lemma summarize_category_eq:
  "summarize_category summary (c, g) =
     summary @ [''\<newline>Category: '' @ py_str c] @
     map finding_line (take 5 (sorted_findings g)) @
     (if 5 < length g
      then [''  - ... and '' @ str_of_nat (length g - 5) @ '' more '' @ py_str c @ '' findings'']
      else [])"
  by (simp add: summarize_category_def Let_def foldl_finding_lines)

lemma summarize_category_append:
  "summarize_category summary item = summary @ summarize_category [] item"
  by (cases item) (simp add: summarize_category_eq)

lemma foldl_summarize_category:
  "foldl summarize_category summary groups = summary @ concat (map (summarize_category []) groups)"
proof (induction groups arbitrary: summary)
  case Nil
  then show ?case by simp
next
  case (Cons item groups)
  show ?case
    by (simp add: Cons.IH summarize_category_append[of summary item])
qed

lemma findings_summary_concat:
  "findings_summary fs = concat (map (summarize_category []) (findings_by_category fs))"
  by (simp add: findings_summary_def foldl_summarize_category)

lemma shown_lines_length: "length (map finding_line (take 5 (sorted_findings g))) = min 5 (length g)"
  by (simp add: sorted_findings_def min.commute)

lemma sorted_findings_sorted: "sorted (map severity_rank (sorted_findings g))"
  by (simp add: sorted_findings_def)

lemma sorted_findings_mset: "mset (sorted_findings g) = mset g"
  by (simp add: sorted_findings_def)

lemma sorted_findings_stable:
  "filter (\<lambda>f. severity_rank f = k) (sorted_findings g) = filter (\<lambda>f. severity_rank f = k) g"
  by (simp add: sorted_findings_def sort_key_stable)

lemma severity_rank_present:
  "map_of f ''severity'' = Some v \<Longrightarrow>
   severity_rank f =
     (if v = FStr ''Critical'' then 0 else if v = FStr ''High'' then 1
      else if v = FStr ''Medium'' then 2 else if v = FStr ''Low'' then 3
      else if v = FStr ''Informational'' then 4 else 999)"
  by (cases v) (auto simp: severity_rank_def dict_get_default_def severity_order_def)

lemma severity_rank_absent: "map_of f ''severity'' = None \<Longrightarrow> severity_rank f = 3"
  by (simp add: severity_rank_def dict_get_default_def severity_order_def)

lemma sorted_findings_position:
  assumes "i < length (sorted_findings g)" "j < length (sorted_findings g)"
    "severity_rank (sorted_findings g ! i) < severity_rank (sorted_findings g ! j)"
  shows "i < j"
proof (rule ccontr)
  assume "\<not> i < j"
  then have "j \<le> i" by simp
  then have "map severity_rank (sorted_findings g) ! j \<le> map severity_rank (sorted_findings g) ! i"
    using sorted_findings_sorted[of g] assms(1) by (simp add: sorted_iff_nth_mono del: nth_map)
  then show False using assms by simp
qed

lemma prepare_prompt_eq:
  "prepare_prompt fs =
     Inr ((''<findings>\<newline># AWS Security Findings Summary\<newline>\<newline>Total findings: '' @
           str_of_nat (length fs) @
           ''\<newline>- Critical: '' @
           str_of_nat (length (filter (\<lambda>f. dict_get f ''severity'' = FStr ''Critical'') fs)) @
           ''\<newline>- High: '' @
           str_of_nat (length (filter (\<lambda>f. dict_get f ''severity'' = FStr ''High'') fs)) @
           ''\<newline>- Medium: '' @
           str_of_nat (length (filter (\<lambda>f. dict_get f ''severity'' = FStr ''Medium'') fs)) @
           ''\<newline>- Low: '' @
           str_of_nat (length (filter (\<lambda>f. dict_get f ''severity'' = FStr ''Low'') fs)) @
           ''\<newline>- Informational: '' @
           str_of_nat (length (filter (\<lambda>f. dict_get f ''severity'' = FStr ''Informational'') fs)) @
           ''\<newline>\<newline>## Findings by Category:\<newline>'') @
          join ''\<newline>'' (findings_summary fs) @ ''\<newline></findings>\<newline>'')"
  by (simp add: prepare_prompt_def Let_def py_bind_def dict_item_severity_counts
      del: str_of_nat.simps)

lemma prepare_prompt_summary:
  "\<exists>header. prepare_prompt fs =
     Inr (header @ join ''\<newline>'' (findings_summary fs) @ ''\<newline></findings>\<newline>'')"
  using prepare_prompt_eq by blast

lemma shown_findings_sorted: "sorted (map severity_rank (take 5 (sorted_findings g)))"
  using sorted_findings_sorted[of g] by (simp add: take_map[symmetric] sorted_wrt_take)

lemma severity_rank_eq:
  "severity_rank f =
     (case map_of f ''severity'' of
        None \<Rightarrow> 3
      | Some v \<Rightarrow>
          if v = FStr ''Critical'' then 0 else if v = FStr ''High'' then 1
          else if v = FStr ''Medium'' then 2 else if v = FStr ''Low'' then 3
          else if v = FStr ''Informational'' then 4 else 999)"
  by (cases "map_of f ''severity''") (simp_all add: severity_rank_absent severity_rank_present)

lemma spec_severity_rank_present:
  "map_of f ''severity'' \<noteq> None \<Longrightarrow> spec_severity_rank f = min (severity_rank f) 5"
proof -
  assume "map_of f ''severity'' \<noteq> None"
  then obtain v where v: "map_of f ''severity'' = Some v" by blast
  show ?thesis
    by (cases v) (auto simp: severity_rank_present[OF v] spec_severity_rank_def dict_get_def v)
qed

lemma sorted_map_min:
  "sorted (map r xs) \<Longrightarrow> sorted (map (\<lambda>x. min (r x) (b::nat)) xs)"
  by (induction xs) (auto simp: min_le_iff_disj)

lemma shown_findings_spec_sorted:
  assumes "\<forall>x \<in> set g. map_of x ''severity'' \<noteq> None"
  shows "sorted (map spec_severity_rank (take 5 (sorted_findings g)))"
proof -
  have "set (take 5 (sorted_findings g)) \<subseteq> set g"
    using set_take_subset[of 5 "sorted_findings g"] by (simp add: sorted_findings_def)
  then have eq: "map spec_severity_rank (take 5 (sorted_findings g)) =
      map (\<lambda>x. min (severity_rank x) 5) (take 5 (sorted_findings g))"
    using assms by (intro map_cong) (auto simp: spec_severity_rank_present)
  show ?thesis
    unfolding eq by (rule sorted_map_min[OF shown_findings_sorted])
qed

text \<open>The prompt of the empty findings list.\<close>

lemma prepare_prompt_empty:
  "prepare_prompt [] = Inr (''<findings>\<newline># AWS Security Findings Summary\<newline>\<newline>Total findings: 0\<newline>- Critical: 0\<newline>- High: 0\<newline>- Medium: 0\<newline>- Low: 0\<newline>- Informational: 0\<newline>\<newline>## Findings by Category:\<newline>\<newline></findings>\<newline>'')"
  by (simp add: prepare_prompt_eq findings_summary_def findings_by_category_def char_of_def bit_0)

section \<open>The entry point never raises\<close>

text \<open>
  Claim C1. For every findings list and every client handle, \<^verbatim>\<open>get_ai_analysis\<close>
  returns a string and never raises. The prompt builder always returns a prompt; if the
  model invoker raises on that prompt, the entry point returns exactly the fallback
  narrative; if the invoker returns a response, the entry point returns what the response
  extractor returns for it.
\<close>

theorem get_ai_analysis_never_raises:
  "(\<exists>narrative. get_ai_analysis bedrock findings = Inr narrative) \<and>
   (\<exists>prompt. prepare_prompt findings = Inr prompt \<and>
      (\<forall>e. invoke_claude_model bedrock prompt = Inl e \<longrightarrow>
           get_ai_analysis bedrock findings = Inr generate_fallback_narrative) \<and>
      (\<forall>response. invoke_claude_model bedrock prompt = Inr response \<longrightarrow>
           get_ai_analysis bedrock findings = extract_narrative_claude response))"
proof -
  obtain prompt where p: "prepare_prompt findings = Inr prompt"
    using prepare_prompt_returns by blast
  have fail: "get_ai_analysis bedrock findings = Inr generate_fallback_narrative"
    if "invoke_claude_model bedrock prompt = Inl e" for e
    using that p by (simp add: get_ai_analysis_def py_bind_def)
  have ok: "get_ai_analysis bedrock findings = extract_narrative_claude response"
    if "invoke_claude_model bedrock prompt = Inr response" for response
    using that p by (simp add: get_ai_analysis_def py_bind_def extract_cases)
  have "\<exists>narrative. get_ai_analysis bedrock findings = Inr narrative"
  proof (cases "invoke_claude_model bedrock prompt")
    case (Inl e)
    then show ?thesis using fail by blast
  next
    case (Inr response)
    then show ?thesis using ok extract_cases by metis
  qed
  then show ?thesis using p fail ok by blast
qed

theorem get_ai_analysis_never_raises_witness:
  "get_ai_analysis (\<lambda>request. Inl (ServiceError ''timed out'')) [] =
     Inr generate_fallback_narrative \<and>
   get_ai_analysis
     (\<lambda>request. Inr (PDict [(''content'',
        PList [PDict [(''type'', PStr ''text''), (''text'', PStr '' ok '')]])])) [] = Inr ''ok''"
proof -
  have a: "get_ai_analysis (\<lambda>request. Inl (ServiceError ''timed out'')) [] =
      Inr generate_fallback_narrative"
    using get_ai_analysis_never_raises
      [of "\<lambda>request. Inl (ServiceError ''timed out'')" "[]"]
    by (auto simp: invoke_claude_model_def)
  have b: "get_ai_analysis
     (\<lambda>request. Inr (PDict [(''content'',
        PList [PDict [(''type'', PStr ''text''), (''text'', PStr '' ok '')]])])) [] =
     extract_narrative_claude (PDict [(''content'',
        PList [PDict [(''type'', PStr ''text''), (''text'', PStr '' ok '')]])])"
    using get_ai_analysis_never_raises
      [of "\<lambda>request. Inr (PDict [(''content'',
        PList [PDict [(''type'', PStr ''text''), (''text'', PStr '' ok '')]])])" "[]"]
    by (auto simp: invoke_claude_model_def)
  have c: "extract_narrative_claude (PDict [(''content'',
        PList [PDict [(''type'', PStr ''text''), (''text'', PStr '' ok '')]])]) = Inr ''ok''"
    by (simp add: extract_narrative_claude_def extract_body_def py_strip_def py_isspace_def)
  show ?thesis using a b c by simp
qed

section \<open>What the extractor returns\<close>

text \<open>
  Claim C2, as the specification states it: a response without the \<^verbatim>\<open>content\<close>
  field is answered by the fallback narrative. The empty dictionary has no such field,
  and the extractor answers it with the empty string: \<^verbatim>\<open>response.get("content", [])\<close>
  supplies the empty list.
\<close>

theorem extract_missing_content_counterexample:
  "\<not> (map_of ([] :: (string \<times> pyval) list) ''content'' = None \<longrightarrow>
      extract_narrative_claude (PDict []) = Inr generate_fallback_narrative)"
proof -
  have "extract_narrative_claude (PDict []) = Inr ''''"
    by (simp add: extract_narrative_claude_def extract_body_def py_strip_def)
  then show ?thesis using fallback_nonempty by simp
qed

text \<open>
  Claim C2, amended. For a response that is a dictionary: without the \<^verbatim>\<open>content\<close>
  field the extractor returns the empty string, and so it does when \<^verbatim>\<open>content\<close> is
  a list of dictionary parts none of which is text-typed. The fallback narrative is what
  the extractor returns when the extraction raises, as it does for a response that is
  not a dictionary.
\<close>

theorem extract_missing_content:
  "(map_of d ''content'' = None \<longrightarrow> extract_narrative_claude (PDict d) = Inr '''') \<and>
   (map_of d ''content'' = Some (PList (map PDict parts)) \<and>
      (\<forall>part \<in> set parts. \<not> is_text_part part) \<longrightarrow>
        extract_narrative_claude (PDict d) = Inr '''') \<and>
   ((\<forall>d'. r \<noteq> PDict d') \<longrightarrow> extract_narrative_claude r = Inr generate_fallback_narrative)"
proof (intro conjI impI)
  assume "map_of d ''content'' = None"
  then show "extract_narrative_claude (PDict d) = Inr ''''"
    by (simp add: extract_narrative_claude_def extract_body_def py_strip_def)
next
  assume a: "map_of d ''content'' = Some (PList (map PDict parts)) \<and>
      (\<forall>part \<in> set parts. \<not> is_text_part part)"
  then have wf: "\<forall>part \<in> set parts. well_formed_part part"
    by (simp add: well_formed_part_def)
  have "filter is_text_part parts = []"
    using a by (simp add: filter_empty_conv)
  then show "extract_narrative_claude (PDict d) = Inr ''''"
    using extract_well_formed[of d parts] a wf by (simp add: py_strip_Nil)
next
  assume "\<forall>d'. r \<noteq> PDict d'"
  then show "extract_narrative_claude r = Inr generate_fallback_narrative"
    by (rule extract_not_dict)
qed

theorem extract_missing_content_witness:
  "map_of [(''id'', PStr ''msg_1'')] ''content'' = None \<and>
   extract_narrative_claude (PDict [(''id'', PStr ''msg_1'')]) = Inr '''' \<and>
   map_of [(''content'', PList [PDict [(''type'', PStr ''tool_use'')]])] ''content'' =
     Some (PList (map PDict [[(''type'', PStr ''tool_use'')]])) \<and>
   \<not> is_text_part [(''type'', PStr ''tool_use'')] \<and>
   extract_narrative_claude
     (PDict [(''content'', PList [PDict [(''type'', PStr ''tool_use'')]])]) = Inr '''' \<and>
   (\<forall>d'. PNone \<noteq> PDict d') \<and>
   extract_narrative_claude PNone = Inr generate_fallback_narrative"
  using extract_missing_content
    [of "[(''id'', PStr ''msg_1'')]" "[[(''type'', PStr ''tool_use'')]]" PNone]
    extract_missing_content
    [of "[(''content'', PList [PDict [(''type'', PStr ''tool_use'')]])]"
        "[[(''type'', PStr ''tool_use'')]]" PNone]
  by (simp add: is_text_part_def)

text \<open>
  Claim C7. For a response whose \<^verbatim>\<open>content\<close> field is a list of well-formed parts,
  the extractor returns the texts of the text-typed parts, concatenated in list order and
  then trimmed, the other parts being ignored. The response with the parts
  \<^verbatim>\<open>"Hello "\<close>, a part of type \<^verbatim>\<open>"other"\<close> and \<^verbatim>\<open>"world"\<close> yields
  \<^verbatim>\<open>"Hello world"\<close>, and the response with an empty \<^verbatim>\<open>content\<close> list yields the
  empty string.
\<close>

theorem extract_concatenates_text_parts:
  "(map_of d ''content'' = Some (PList (map PDict parts)) \<and>
      (\<forall>part \<in> set parts. well_formed_part part) \<longrightarrow>
        extract_narrative_claude (PDict d) =
          Inr (py_strip (concat (map part_text (filter is_text_part parts))))) \<and>
   extract_narrative_claude
     (PDict [(''content'',
        PList [PDict [(''type'', PStr ''text''), (''text'', PStr ''Hello '')],
               PDict [(''type'', PStr ''other'')],
               PDict [(''type'', PStr ''text''), (''text'', PStr ''world'')]])]) =
     Inr ''Hello world'' \<and>
   extract_narrative_claude (PDict [(''content'', PList [])]) = Inr ''''"
proof (intro conjI impI)
  assume "map_of d ''content'' = Some (PList (map PDict parts)) \<and>
      (\<forall>part \<in> set parts. well_formed_part part)"
  then show "extract_narrative_claude (PDict d) =
      Inr (py_strip (concat (map part_text (filter is_text_part parts))))"
    using extract_well_formed by blast
next
  show "extract_narrative_claude
     (PDict [(''content'',
        PList [PDict [(''type'', PStr ''text''), (''text'', PStr ''Hello '')],
               PDict [(''type'', PStr ''other'')],
               PDict [(''type'', PStr ''text''), (''text'', PStr ''world'')]])]) =
     Inr ''Hello world''"
    by (simp add: extract_narrative_claude_def extract_body_def py_strip_def py_isspace_def)
next
  show "extract_narrative_claude (PDict [(''content'', PList [])]) = Inr ''''"
    by (simp add: extract_narrative_claude_def extract_body_def py_strip_def)
qed

theorem extract_concatenates_text_parts_witness:
  "map_of [(''role'', PStr ''assistant''),
           (''content'', PList [PDict [(''type'', PStr ''text''), (''text'', PStr '' a'')],
                                PDict [(''type'', PStr ''image''), (''text'', PInt 7)],
                                PDict [(''type'', PStr ''text'')],
                                PDict [(''text'', PStr ''b ''), (''type'', PStr ''text'')]])]
      ''content'' =
     Some (PList (map PDict [[(''type'', PStr ''text''), (''text'', PStr '' a'')],
                             [(''type'', PStr ''image''), (''text'', PInt 7)],
                             [(''type'', PStr ''text'')],
                             [(''text'', PStr ''b ''), (''type'', PStr ''text'')]])) \<and>
   well_formed_part [(''type'', PStr ''text''), (''text'', PStr '' a'')] \<and>
   well_formed_part [(''type'', PStr ''image''), (''text'', PInt 7)] \<and>
   well_formed_part [(''type'', PStr ''text'')] \<and>
   well_formed_part [(''text'', PStr ''b ''), (''type'', PStr ''text'')] \<and>
   extract_narrative_claude
     (PDict [(''role'', PStr ''assistant''),
             (''content'', PList [PDict [(''type'', PStr ''text''), (''text'', PStr '' a'')],
                                  PDict [(''type'', PStr ''image''), (''text'', PInt 7)],
                                  PDict [(''type'', PStr ''text'')],
                                  PDict [(''text'', PStr ''b ''), (''type'', PStr ''text'')]])]) =
     Inr ''ab''"
  using extract_concatenates_text_parts
    [of "[(''role'', PStr ''assistant''),
          (''content'', PList [PDict [(''type'', PStr ''text''), (''text'', PStr '' a'')],
                               PDict [(''type'', PStr ''image''), (''text'', PInt 7)],
                               PDict [(''type'', PStr ''text'')],
                               PDict [(''text'', PStr ''b ''), (''type'', PStr ''text'')]])]"
        "[[(''type'', PStr ''text''), (''text'', PStr '' a'')],
          [(''type'', PStr ''image''), (''text'', PInt 7)],
          [(''type'', PStr ''text'')],
          [(''text'', PStr ''b ''), (''type'', PStr ''text'')]]"]
  by (simp add: well_formed_part_def is_text_part_def part_text_def py_strip_def py_isspace_def)

text \<open>
  Claim C8. Extraction is idempotent. The extractor is a function, so two runs on one
  response return the same string; that string is already trimmed, so trimming it again
  leaves it unchanged; and a response that carries the extracted narrative as its one
  text part is extracted to that same narrative. This holds for every response, the
  well-formed ones among them.
\<close>

theorem extract_idempotent:
  "\<exists>narrative.
     extract_narrative_claude response = Inr narrative \<and>
     py_strip narrative = narrative \<and>
     extract_narrative_claude
       (PDict [(''content'', PList [PDict [(''type'', PStr ''text''), (''text'', PStr narrative)]])]) =
       Inr narrative"
proof -
  obtain narrative where n: "extract_narrative_claude response = Inr narrative"
    and s: "py_strip narrative = narrative"
    using extract_stripped by blast
  have "extract_narrative_claude
       (PDict [(''content'', PList [PDict [(''type'', PStr ''text''), (''text'', PStr narrative)]])]) =
       Inr (py_strip narrative)"
    by (simp add: extract_narrative_claude_def extract_body_def)
  with n s show ?thesis by simp
qed

section \<open>Claims about the summarizer\<close>

text \<open>
  Claim C3. For every findings list, the summarizer keeps the five severity counts, and
  their sum is the number of findings whose severity is one of the five recognized
  labels. A finding whose severity is unrecognized or absent changes no count, wherever
  it stands in the list, and still appears in a category group.
\<close>

theorem severity_counts_sum_recognized:
  "map fst (severity_counts fs) = [''Critical'', ''High'', ''Medium'', ''Low'', ''Informational''] \<and>
   sum_list (map snd (severity_counts fs)) =
     length (filter (\<lambda>f. dict_get f ''severity'' \<in>
       {FStr ''Critical'', FStr ''High'', FStr ''Medium'', FStr ''Low'', FStr ''Informational''}) fs) \<and>
   (dict_get f ''severity'' \<notin>
       {FStr ''Critical'', FStr ''High'', FStr ''Medium'', FStr ''Low'', FStr ''Informational''} \<longrightarrow>
      severity_counts (xs @ f # ys) = severity_counts (xs @ ys) \<and>
      (\<exists>g \<in> set (findings_by_category (xs @ f # ys)). f \<in> set (snd g)))"
proof (intro conjI impI)
  show "map fst (severity_counts fs) = [''Critical'', ''High'', ''Medium'', ''Low'', ''Informational'']"
    by (rule severity_counts_keys)
  show "sum_list (map snd (severity_counts fs)) =
     length (filter (\<lambda>f. dict_get f ''severity'' \<in>
       {FStr ''Critical'', FStr ''High'', FStr ''Medium'', FStr ''Low'', FStr ''Informational''}) fs)"
    by (rule severity_counts_sum)
next
  assume "dict_get f ''severity'' \<notin>
       {FStr ''Critical'', FStr ''High'', FStr ''Medium'', FStr ''Low'', FStr ''Informational''}"
  then show "severity_counts (xs @ f # ys) = severity_counts (xs @ ys)"
    by (rule severity_counts_skip)
next
  have "f \<in> set (xs @ f # ys)" by simp
  then show "\<exists>g \<in> set (findings_by_category (xs @ f # ys)). f \<in> set (snd g)"
    using finding_in_unique_group by blast
qed

theorem severity_counts_sum_recognized_witness:
  "dict_get [(''severity'', FStr ''Urgent''), (''category'', FStr ''S3'')] ''severity'' \<notin>
     {FStr ''Critical'', FStr ''High'', FStr ''Medium'', FStr ''Low'', FStr ''Informational''} \<and>
   severity_counts
     ([[(''severity'', FStr ''High''), (''category'', FStr ''IAM'')]] @
      [(''severity'', FStr ''Urgent''), (''category'', FStr ''S3'')] #
      [[(''category'', FStr ''IAM'')], [(''severity'', FStr ''High'')]]) =
     [(''Critical'', 0), (''High'', 2), (''Medium'', 0), (''Low'', 0), (''Informational'', 0)] \<and>
   (\<exists>g \<in> set (findings_by_category
       ([[(''severity'', FStr ''High''), (''category'', FStr ''IAM'')]] @
        [(''severity'', FStr ''Urgent''), (''category'', FStr ''S3'')] #
        [[(''category'', FStr ''IAM'')], [(''severity'', FStr ''High'')]])).
      [(''severity'', FStr ''Urgent''), (''category'', FStr ''S3'')] \<in> set (snd g))"
proof -
  have h: "dict_get [(''severity'', FStr ''Urgent''), (''category'', FStr ''S3'')] ''severity'' \<notin>
     {FStr ''Critical'', FStr ''High'', FStr ''Medium'', FStr ''Low'', FStr ''Informational''}"
    by (simp add: dict_get_def)
  have c: "severity_counts
     ([[(''severity'', FStr ''High''), (''category'', FStr ''IAM'')]] @
      [[(''category'', FStr ''IAM'')], [(''severity'', FStr ''High'')]]) =
     [(''Critical'', 0), (''High'', 2), (''Medium'', 0), (''Low'', 0), (''Informational'', 0)]"
    by (simp add: severity_counts_def count_finding_def initial_severity_counts_def dict_get_def)
  show ?thesis
    using h c severity_counts_sum_recognized
      [of "[]" "[(''severity'', FStr ''Urgent''), (''category'', FStr ''S3'')]"
          "[[(''severity'', FStr ''High''), (''category'', FStr ''IAM'')]]"
          "[[(''category'', FStr ''IAM'')], [(''severity'', FStr ''High'')]]"]
    by simp
qed

text \<open>
  Claim C4. For every findings list, the category groups have distinct labels, each
  group holds exactly the findings of its category, in input order, so that the groups
  together hold every finding as often as the input does and every finding appears in
  exactly one group; a finding without the \<^verbatim>\<open>category\<close> key is in the group
  labelled \<^verbatim>\<open>"Other"\<close>.
\<close>

theorem every_finding_in_one_group:
  "distinct (map fst (findings_by_category fs)) \<and>
   mset (concat (map snd (findings_by_category fs))) = mset fs \<and>
   (\<forall>g \<in> set (findings_by_category fs). snd g = filter (\<lambda>f. category_of f = fst g) fs) \<and>
   (\<forall>f \<in> set fs. \<exists>!g. g \<in> set (findings_by_category fs) \<and> f \<in> set (snd g)) \<and>
   (\<forall>f \<in> set fs. map_of f ''category'' = None \<longrightarrow>
      (\<exists>g \<in> set (findings_by_category fs). fst g = FStr ''Other'' \<and> f \<in> set (snd g)))"
proof (intro conjI ballI impI)
  show "distinct (map fst (findings_by_category fs))"
    by (rule category_keys_distinct)
  show "mset (concat (map snd (findings_by_category fs))) = mset fs"
    by (rule groups_partition)
next
  fix g assume "g \<in> set (findings_by_category fs)"
  then show "snd g = filter (\<lambda>f. category_of f = fst g) fs"
    by (rule group_members)
next
  fix f assume "f \<in> set fs"
  then show "\<exists>!g. g \<in> set (findings_by_category fs) \<and> f \<in> set (snd g)"
    by (rule finding_in_unique_group)
next
  fix f assume f: "f \<in> set fs" and "map_of f ''category'' = None"
  then have "category_of f = FStr ''Other''"
    by (simp add: category_of_def dict_get_default_def)
  then show "\<exists>g \<in> set (findings_by_category fs). fst g = FStr ''Other'' \<and> f \<in> set (snd g)"
    using finding_in_group[OF f] f by force
qed

theorem every_finding_in_one_group_witness:
  "[(''severity'', FStr ''High'')] \<in>
     set [[(''category'', FStr ''IAM'')], [(''severity'', FStr ''High'')],
          [(''category'', FStr ''IAM''), (''severity'', FStr ''Low'')]] \<and>
   map_of [(''severity'', FStr ''High'')] ''category'' = None \<and>
   (\<exists>g \<in> set (findings_by_category
        [[(''category'', FStr ''IAM'')], [(''severity'', FStr ''High'')],
         [(''category'', FStr ''IAM''), (''severity'', FStr ''Low'')]]).
      fst g = FStr ''Other'' \<and> [(''severity'', FStr ''High'')] \<in> set (snd g)) \<and>
   (\<exists>!g. g \<in> set (findings_by_category
        [[(''category'', FStr ''IAM'')], [(''severity'', FStr ''High'')],
         [(''category'', FStr ''IAM''), (''severity'', FStr ''Low'')]]) \<and>
      [(''severity'', FStr ''High'')] \<in> set (snd g)) \<and>
   findings_by_category
        [[(''category'', FStr ''IAM'')], [(''severity'', FStr ''High'')],
         [(''category'', FStr ''IAM''), (''severity'', FStr ''Low'')]] =
     [(FStr ''IAM'', [[(''category'', FStr ''IAM'')],
                      [(''category'', FStr ''IAM''), (''severity'', FStr ''Low'')]]),
      (FStr ''Other'', [[(''severity'', FStr ''High'')]])]"
proof -
  let ?fs = "[[(''category'', FStr ''IAM'')], [(''severity'', FStr ''High'')],
         [(''category'', FStr ''IAM''), (''severity'', FStr ''Low'')]]"
  have m: "[(''severity'', FStr ''High'')] \<in> set ?fs" by simp
  have n: "map_of [(''severity'', FStr ''High'')] ''category'' = None" by simp
  note t = every_finding_in_one_group[of ?fs]
  from t have a: "\<forall>f \<in> set ?fs. map_of f ''category'' = None \<longrightarrow>
      (\<exists>g \<in> set (findings_by_category ?fs). fst g = FStr ''Other'' \<and> f \<in> set (snd g))"
    by (elim conjE)
  from t have b: "\<forall>f \<in> set ?fs. \<exists>!g. g \<in> set (findings_by_category ?fs) \<and> f \<in> set (snd g)"
    by (elim conjE)
  have e: "findings_by_category ?fs =
     [(FStr ''IAM'', [[(''category'', FStr ''IAM'')],
                      [(''category'', FStr ''IAM''), (''severity'', FStr ''Low'')]]),
      (FStr ''Other'', [[(''severity'', FStr ''High'')]])]"
    by (simp add: findings_by_category_def group_finding_def category_of_def
        dict_get_default_def Let_def)
  show ?thesis
    using m n bspec[OF a m] bspec[OF b m] e by (intro conjI) simp_all
qed

text \<open>
  Claim C9. The label \<^verbatim>\<open>"Other"\<close> is the category of a finding only when the
  \<^verbatim>\<open>category\<close> key is missing, or holds that very string. A finding whose
  \<^verbatim>\<open>category\<close> key holds \<^verbatim>\<open>None\<close> is grouped under the label \<^verbatim>\<open>None\<close>,
  and every group that holds it has this label.
\<close>

theorem explicit_none_category:
  "(category_of f = FStr ''Other'' \<longleftrightarrow>
      map_of f ''category'' = None \<or> map_of f ''category'' = Some (FStr ''Other'')) \<and>
   (map_of f ''category'' = Some FNone \<and> f \<in> set fs \<longrightarrow>
      (\<exists>g \<in> set (findings_by_category fs). fst g = FNone \<and> f \<in> set (snd g)) \<and>
      (\<forall>g \<in> set (findings_by_category fs). f \<in> set (snd g) \<longrightarrow> fst g = FNone))"
proof (intro conjI impI ballI)
  show "category_of f = FStr ''Other'' \<longleftrightarrow>
      map_of f ''category'' = None \<or> map_of f ''category'' = Some (FStr ''Other'')"
    by (auto simp: category_of_def dict_get_default_def split: option.splits)
next
  assume a: "map_of f ''category'' = Some FNone \<and> f \<in> set fs"
  then have c: "category_of f = FNone"
    by (simp add: category_of_def dict_get_default_def)
  from a have f: "f \<in> set fs" by simp
  show "\<exists>g \<in> set (findings_by_category fs). fst g = FNone \<and> f \<in> set (snd g)"
    using finding_in_group[OF f] f c by force
  fix g assume "g \<in> set (findings_by_category fs)" "f \<in> set (snd g)"
  then show "fst g = FNone"
    using group_members[of g fs] c by auto
qed

theorem explicit_none_category_witness:
  "map_of [(''category'', FNone), (''severity'', FStr ''Low'')] ''category'' = Some FNone \<and>
   [(''category'', FNone), (''severity'', FStr ''Low'')] \<in>
     set [[(''severity'', FStr ''High'')], [(''category'', FNone), (''severity'', FStr ''Low'')]] \<and>
   (\<exists>g \<in> set (findings_by_category
        [[(''severity'', FStr ''High'')], [(''category'', FNone), (''severity'', FStr ''Low'')]]).
      fst g = FNone \<and> [(''category'', FNone), (''severity'', FStr ''Low'')] \<in> set (snd g)) \<and>
   findings_by_category
        [[(''severity'', FStr ''High'')], [(''category'', FNone), (''severity'', FStr ''Low'')]] =
     [(FStr ''Other'', [[(''severity'', FStr ''High'')]]),
      (FNone, [[(''category'', FNone), (''severity'', FStr ''Low'')]])]"
proof -
  let ?f = "[(''category'', FNone), (''severity'', FStr ''Low'')]"
  let ?fs = "[[(''severity'', FStr ''High'')], ?f]"
  have h: "map_of ?f ''category'' = Some FNone \<and> ?f \<in> set ?fs" by simp
  have a: "\<exists>g \<in> set (findings_by_category ?fs). fst g = FNone \<and> ?f \<in> set (snd g)"
    using explicit_none_category[of ?f ?fs] h by blast
  have e: "findings_by_category ?fs =
     [(FStr ''Other'', [[(''severity'', FStr ''High'')]]), (FNone, [?f])]"
    by (simp add: findings_by_category_def group_finding_def category_of_def
        dict_get_default_def Let_def)
  show ?thesis using h a e by (intro conjI) simp_all
qed

section \<open>Claims about the prompt\<close>

text \<open>
  Claim C5, as the specification states it: within a category the rendered findings are
  in non-decreasing severity rank, unrecognized severities after Informational. Take an
  Informational finding followed by a finding with no \<^verbatim>\<open>severity\<close> key, both without
  category. The sort key reads the missing severity as \<^verbatim>\<open>"Low"\<close>, so the second
  finding, rendered with the severity \<^verbatim>\<open>None\<close>, comes before the Informational one,
  and the ranks of the specification are not in order.
\<close>

theorem prompt_order_counterexample:
  "findings_summary [[(''severity'', FStr ''Informational'')], []] =
     [''\<newline>Category: Other'',
      ''  - None: None (None: None)'',
      ''  - Informational: None (None: None)''] \<and>
   map spec_severity_rank (take 5 (sorted_findings [[(''severity'', FStr ''Informational'')], []])) =
     [5, 4] \<and>
   \<not> sorted (map spec_severity_rank
         (take 5 (sorted_findings [[(''severity'', FStr ''Informational'')], []])))"
proof -
  have s: "sorted_findings [[(''severity'', FStr ''Informational'')], []] =
      [[], [(''severity'', FStr ''Informational'')]]"
    by (simp add: sorted_findings_def severity_rank_def severity_order_def dict_get_default_def)
  have a: "findings_summary [[(''severity'', FStr ''Informational'')], []] =
     [''\<newline>Category: Other'',
      ''  - None: None (None: None)'',
      ''  - Informational: None (None: None)'']"
    by (simp add: findings_summary_def findings_by_category_def group_finding_def category_of_def
        dict_get_default_def dict_get_def summarize_category_def s finding_line_def Let_def)
  have b: "map spec_severity_rank
      (take 5 (sorted_findings [[(''severity'', FStr ''Informational'')], []])) = [5, 4]"
    by (simp add: s spec_severity_rank_def dict_get_def)
  show ?thesis unfolding b using a by simp
qed

text \<open>
  Claim C5, amended. The prompt embeds the summary lines, joined by newlines. The summary
  lines are the blocks of the categories, in the order of first occurrence of the
  categories in the input. The block of a category is its header, then the lines of the
  first five findings of the category sorted by the rank of the sort key, then at most one
  more line. The findings rendered are in non-decreasing rank, and the sort is a
  permutation of the category and is stable. The rank is 0 for Critical, 1 for High, 2
  for Medium, 3 for Low, 4 for Informational and 999 for any other severity that is
  present; a finding with no \<^verbatim>\<open>severity\<close> key has the rank 3 of Low, and so is
  rendered before the Informational findings. When every finding of a category has a
  \<^verbatim>\<open>severity\<close> key, the rendered findings are in the order of the specification.
\<close>

theorem prompt_order:
  "(\<exists>header. prepare_prompt fs =
      Inr (header @ join ''\<newline>'' (findings_summary fs) @ ''\<newline></findings>\<newline>'')) \<and>
   map fst (findings_by_category fs) = first_occurrences (map category_of fs) \<and>
   findings_summary fs =
     concat (map (\<lambda>c. summarize_category [] (c, filter (\<lambda>f. category_of f = c) fs))
       (first_occurrences (map category_of fs))) \<and>
   (\<exists>rest. length rest \<le> 1 \<and>
      summarize_category [] (c, g) =
        (''\<newline>Category: '' @ py_str c) # map finding_line (take 5 (sorted_findings g)) @ rest) \<and>
   sorted (map severity_rank (take 5 (sorted_findings g))) \<and>
   sorted (map severity_rank (sorted_findings g)) \<and>
   mset (sorted_findings g) = mset g \<and>
   (\<forall>k. filter (\<lambda>f. severity_rank f = k) (sorted_findings g) =
        filter (\<lambda>f. severity_rank f = k) g) \<and>
   severity_rank f =
     (case map_of f ''severity'' of
        None \<Rightarrow> 3
      | Some v \<Rightarrow>
          if v = FStr ''Critical'' then 0 else if v = FStr ''High'' then 1
          else if v = FStr ''Medium'' then 2 else if v = FStr ''Low'' then 3
          else if v = FStr ''Informational'' then 4 else 999) \<and>
   ((\<forall>x \<in> set g. map_of x ''severity'' \<noteq> None) \<longrightarrow>
      sorted (map spec_severity_rank (take 5 (sorted_findings g))))"
proof (intro conjI allI impI)
  show "\<exists>header. prepare_prompt fs =
      Inr (header @ join ''\<newline>'' (findings_summary fs) @ ''\<newline></findings>\<newline>'')"
    by (rule prepare_prompt_summary)
  show "map fst (findings_by_category fs) = first_occurrences (map category_of fs)"
    by (rule category_keys)
  show "sorted (map severity_rank (take 5 (sorted_findings g)))"
    by (rule shown_findings_sorted)
  show "findings_summary fs =
     concat (map (\<lambda>c. summarize_category [] (c, filter (\<lambda>f. category_of f = c) fs))
       (first_occurrences (map category_of fs)))"
    by (simp add: findings_summary_concat findings_by_category_eq comp_def)
  show "\<exists>rest. length rest \<le> 1 \<and>
      summarize_category [] (c, g) =
        (''\<newline>Category: '' @ py_str c) # map finding_line (take 5 (sorted_findings g)) @ rest"
    by (simp add: summarize_category_eq)
  show "sorted (map severity_rank (sorted_findings g))"
    by (rule sorted_findings_sorted)
  show "mset (sorted_findings g) = mset g"
    by (rule sorted_findings_mset)
  show "filter (\<lambda>f. severity_rank f = k) (sorted_findings g) =
        filter (\<lambda>f. severity_rank f = k) g" for k
    by (rule sorted_findings_stable)
  show "severity_rank f =
     (case map_of f ''severity'' of
        None \<Rightarrow> 3
      | Some v \<Rightarrow>
          if v = FStr ''Critical'' then 0 else if v = FStr ''High'' then 1
          else if v = FStr ''Medium'' then 2 else if v = FStr ''Low'' then 3
          else if v = FStr ''Informational'' then 4 else 999)"
    by (rule severity_rank_eq)
next
  assume "\<forall>x \<in> set g. map_of x ''severity'' \<noteq> None"
  then show "sorted (map spec_severity_rank (take 5 (sorted_findings g)))"
    by (rule shown_findings_spec_sorted)
qed

theorem prompt_order_witness:
  "map_of [(''severity'', FStr ''Low''), (''category'', FStr ''S3''), (''description'', FStr ''d1'')]
     ''severity'' \<noteq> None \<and>
   map_of [(''severity'', FStr ''Urgent''), (''category'', FStr ''S3''), (''description'', FStr ''d3'')]
     ''severity'' \<noteq> None \<and>
   map spec_severity_rank (take 5 (sorted_findings
     [[(''severity'', FStr ''Urgent''), (''category'', FStr ''S3''), (''description'', FStr ''d3'')],
      [(''severity'', FStr ''Low''), (''category'', FStr ''S3''), (''description'', FStr ''d1'')]])) =
     [3, 5] \<and>
   sorted (map spec_severity_rank (take 5 (sorted_findings
     [[(''severity'', FStr ''Urgent''), (''category'', FStr ''S3''), (''description'', FStr ''d3'')],
      [(''severity'', FStr ''Low''), (''category'', FStr ''S3''), (''description'', FStr ''d1'')]]))) \<and>
   severity_rank [(''category'', FStr ''S3'')] = 3 \<and>
   findings_summary
     [[(''severity'', FStr ''Urgent''), (''category'', FStr ''S3''), (''description'', FStr ''d3'')],
      [(''severity'', FStr ''High''), (''category'', FStr ''IAM''), (''description'', FStr ''d2'')],
      [(''severity'', FStr ''Low''), (''category'', FStr ''S3''), (''description'', FStr ''d1'')]] =
     [''\<newline>Category: S3'',
      ''  - Low: d1 (None: None)'',
      ''  - Urgent: d3 (None: None)'',
      ''\<newline>Category: IAM'',
      ''  - High: d2 (None: None)'']"
proof -
  let ?f = "[(''category'', FStr ''S3'')]"
  let ?f1 = "[(''severity'', FStr ''Low''), (''category'', FStr ''S3''), (''description'', FStr ''d1'')]"
  let ?f2 = "[(''severity'', FStr ''High''), (''category'', FStr ''IAM''), (''description'', FStr ''d2'')]"
  let ?f3 = "[(''severity'', FStr ''Urgent''), (''category'', FStr ''S3''), (''description'', FStr ''d3'')]"
  note t = prompt_order[of "[?f3, ?f2, ?f1]" "FStr ''S3''" "[?f3, ?f1]" ?f]
  have h1: "map_of ?f1 ''severity'' \<noteq> None" and h3: "map_of ?f3 ''severity'' \<noteq> None"
    by simp_all
  then have h: "\<forall>x \<in> set [?f3, ?f1]. map_of x ''severity'' \<noteq> None" by simp
  from t h have o: "sorted (map spec_severity_rank (take 5 (sorted_findings [?f3, ?f1])))"
    by blast
  from t have r: "severity_rank ?f = 3" by simp
  from t have s: "findings_summary [?f3, ?f2, ?f1] =
     concat (map (\<lambda>c. summarize_category [] (c, filter (\<lambda>f. category_of f = c) [?f3, ?f2, ?f1]))
       (first_occurrences (map category_of [?f3, ?f2, ?f1])))"
    by (elim conjE)
  have e: "findings_summary [?f3, ?f2, ?f1] =
     [''\<newline>Category: S3'', ''  - Low: d1 (None: None)'', ''  - Urgent: d3 (None: None)'',
      ''\<newline>Category: IAM'', ''  - High: d2 (None: None)'']"
    unfolding s
    by (simp add: category_of_def dict_get_default_def dict_get_def summarize_category_def
        sorted_findings_def severity_rank_def severity_order_def finding_line_def Let_def)
  have m: "map spec_severity_rank (take 5 (sorted_findings [?f3, ?f1])) = [3, 5]"
    by (simp add: sorted_findings_def severity_rank_def severity_order_def dict_get_default_def
        spec_severity_rank_def dict_get_def)
  show ?thesis using h1 h3 o r e m by (intro conjI) simp_all
qed

text \<open>
  Claim C6. For every category group, one round of the summary loop appends the header
  of the category, one line for each of at most five findings (five, or all the findings
  of a smaller category) and, exactly when the category has more than five findings, one
  remainder line whose count is the size of the category minus five. The summary of a
  findings list is made of these rounds, one for each category group, and the prompt
  embeds it.
\<close>

theorem top_five_and_remainder:
  "(\<exists>header. prepare_prompt fs =
      Inr (header @ join ''\<newline>'' (findings_summary fs) @ ''\<newline></findings>\<newline>'')) \<and>
   findings_summary fs = concat (map (summarize_category []) (findings_by_category fs)) \<and>
   summarize_category summary (c, g) =
     summary @ [''\<newline>Category: '' @ py_str c] @
     map finding_line (take 5 (sorted_findings g)) @
     (if 5 < length g
      then [''  - ... and '' @ str_of_nat (length g - 5) @ '' more '' @ py_str c @ '' findings'']
      else []) \<and>
   length (map finding_line (take 5 (sorted_findings g))) = min 5 (length g) \<and>
   length (map finding_line (take 5 (sorted_findings g))) \<le> 5"
  using prepare_prompt_summary[of fs] findings_summary_concat[of fs]
    summarize_category_eq[of summary c g] shown_lines_length[of g]
  by simp

theorem top_five_and_remainder_witness:
  "summarize_category []
     (FStr ''IAM'',
      [[(''severity'', FStr ''Low''), (''description'', FStr ''a'')],
       [(''severity'', FStr ''Critical''), (''description'', FStr ''b'')],
       [(''severity'', FStr ''High''), (''description'', FStr ''c'')],
       [(''severity'', FStr ''Low''), (''description'', FStr ''d'')],
       [(''severity'', FStr ''Medium''), (''description'', FStr ''e'')],
       [(''severity'', FStr ''Informational''), (''description'', FStr ''f'')]]) =
     [''\<newline>Category: IAM'',
      ''  - Critical: b (None: None)'',
      ''  - High: c (None: None)'',
      ''  - Medium: e (None: None)'',
      ''  - Low: a (None: None)'',
      ''  - Low: d (None: None)'',
      ''  - ... and 1 more IAM findings'']"
  using top_five_and_remainder
    [of "[]" "[]" "FStr ''IAM''"
       "[[(''severity'', FStr ''Low''), (''description'', FStr ''a'')],
         [(''severity'', FStr ''Critical''), (''description'', FStr ''b'')],
         [(''severity'', FStr ''High''), (''description'', FStr ''c'')],
         [(''severity'', FStr ''Low''), (''description'', FStr ''d'')],
         [(''severity'', FStr ''Medium''), (''description'', FStr ''e'')],
         [(''severity'', FStr ''Informational''), (''description'', FStr ''f'')]]"]
  by (simp add: sorted_findings_def severity_rank_def severity_order_def finding_line_def
      dict_get_default_def dict_get_def char_of_def bit_0)

text \<open>
  Claim C10. A finding without the \<^verbatim>\<open>severity\<close> key has the rank 3 of Low, and a
  finding whose severity is present has the rank of its label, 999 when the value is
  none of the five labels. So in the sorted findings of a category a finding without
  severity stands before every Informational finding, an Informational finding stands
  before every finding with an unrecognized severity, and the findings of rank 3, those
  marked Low and those without severity, keep their input order.
\<close>

theorem absent_severity_ranks_as_low:
  "(map_of f ''severity'' = None \<longrightarrow> severity_rank f = 3) \<and>
   (map_of f ''severity'' = Some v \<longrightarrow>
      severity_rank f =
        (if v = FStr ''Critical'' then 0 else if v = FStr ''High'' then 1
         else if v = FStr ''Medium'' then 2 else if v = FStr ''Low'' then 3
         else if v = FStr ''Informational'' then 4 else 999)) \<and>
   (i < length (sorted_findings g) \<and> j < length (sorted_findings g) \<and>
    map_of (sorted_findings g ! i) ''severity'' = None \<and>
    map_of (sorted_findings g ! j) ''severity'' = Some (FStr ''Informational'') \<longrightarrow> i < j) \<and>
   (i < length (sorted_findings g) \<and> j < length (sorted_findings g) \<and>
    map_of (sorted_findings g ! i) ''severity'' = Some (FStr ''Informational'') \<and>
    map_of (sorted_findings g ! j) ''severity'' = Some w \<and>
    w \<notin> {FStr ''Critical'', FStr ''High'', FStr ''Medium'', FStr ''Low'', FStr ''Informational''}
      \<longrightarrow> i < j) \<and>
   filter (\<lambda>x. severity_rank x = 3) (sorted_findings g) = filter (\<lambda>x. severity_rank x = 3) g"
proof (intro conjI impI)
  assume "map_of f ''severity'' = None"
  then show "severity_rank f = 3" by (rule severity_rank_absent)
next
  assume "map_of f ''severity'' = Some v"
  then show "severity_rank f =
        (if v = FStr ''Critical'' then 0 else if v = FStr ''High'' then 1
         else if v = FStr ''Medium'' then 2 else if v = FStr ''Low'' then 3
         else if v = FStr ''Informational'' then 4 else 999)"
    by (rule severity_rank_present)
next
  assume a: "i < length (sorted_findings g) \<and> j < length (sorted_findings g) \<and>
    map_of (sorted_findings g ! i) ''severity'' = None \<and>
    map_of (sorted_findings g ! j) ''severity'' = Some (FStr ''Informational'')"
  then have "severity_rank (sorted_findings g ! i) = 3" "severity_rank (sorted_findings g ! j) = 4"
    by (simp_all add: severity_rank_absent severity_rank_present)
  then show "i < j" using a sorted_findings_position[of i g j] by simp
next
  assume a: "i < length (sorted_findings g) \<and> j < length (sorted_findings g) \<and>
    map_of (sorted_findings g ! i) ''severity'' = Some (FStr ''Informational'') \<and>
    map_of (sorted_findings g ! j) ''severity'' = Some w \<and>
    w \<notin> {FStr ''Critical'', FStr ''High'', FStr ''Medium'', FStr ''Low'', FStr ''Informational''}"
  then have "severity_rank (sorted_findings g ! i) = 4" "severity_rank (sorted_findings g ! j) = 999"
    by (simp_all add: severity_rank_present)
  then show "i < j" using a sorted_findings_position[of i g j] by simp
next
  show "filter (\<lambda>x. severity_rank x = 3) (sorted_findings g) = filter (\<lambda>x. severity_rank x = 3) g"
    by (rule sorted_findings_stable)
qed

theorem absent_severity_ranks_as_low_witness:
  "map_of [(''description'', FStr ''no severity'')] ''severity'' = None \<and>
   severity_rank [(''description'', FStr ''no severity'')] = 3 \<and>
   map_of [(''severity'', FStr ''Urgent'')] ''severity'' = Some (FStr ''Urgent'') \<and>
   severity_rank [(''severity'', FStr ''Urgent'')] = 999 \<and>
   map_of [(''severity'', FNone)] ''severity'' = Some FNone \<and>
   severity_rank [(''severity'', FNone)] = 999 \<and>
   sorted_findings
     [[(''severity'', FStr ''Urgent'')], [(''severity'', FStr ''Informational'')],
      [(''description'', FStr ''no severity'')], [(''severity'', FStr ''Low'')]] =
     [[(''description'', FStr ''no severity'')], [(''severity'', FStr ''Low'')],
      [(''severity'', FStr ''Informational'')], [(''severity'', FStr ''Urgent'')]] \<and>
   (0::nat) < 2 \<and> (2::nat) < 3"
proof -
  let ?g = "[[(''severity'', FStr ''Urgent'')], [(''severity'', FStr ''Informational'')],
      [(''description'', FStr ''no severity'')], [(''severity'', FStr ''Low'')]]"
  have s: "sorted_findings ?g =
     [[(''description'', FStr ''no severity'')], [(''severity'', FStr ''Low'')],
      [(''severity'', FStr ''Informational'')], [(''severity'', FStr ''Urgent'')]]"
    by (simp add: sorted_findings_def severity_rank_def severity_order_def dict_get_default_def)
  have a: "severity_rank [(''description'', FStr ''no severity'')] = 3"
    using absent_severity_ranks_as_low
      [of "[(''description'', FStr ''no severity'')]" "FStr ''Urgent''" 0 ?g 2 "FStr ''Urgent''"]
    by simp
  have b: "severity_rank [(''severity'', FStr ''Urgent'')] = 999"
    using absent_severity_ranks_as_low
      [of "[(''severity'', FStr ''Urgent'')]" "FStr ''Urgent''" 0 ?g 2 "FStr ''Urgent''"]
    by simp
  have c: "severity_rank [(''severity'', FNone)] = 999"
    using absent_severity_ranks_as_low
      [of "[(''severity'', FNone)]" FNone 0 ?g 2 "FStr ''Urgent''"]
    by simp
  have d: "(0::nat) < 2"
    using absent_severity_ranks_as_low
      [of "[]" FNone 0 ?g 2 "FStr ''Urgent''"] s
    by simp
  have e: "(2::nat) < 3"
    using absent_severity_ranks_as_low
      [of "[]" FNone 2 ?g 3 "FStr ''Urgent''"] s
    by simp
  show ?thesis using s a b c d e by simp
qed

end
